theory Spec2Isabelle
  imports Complex_Main "HOL-Library.List_Lexorder" "HOL-Library.Multiset"
begin

section \<open>Strings, values and the clock\<close>

text \<open>
  A Python \<open>str\<close> is a sequence of Unicode code points, and SQLite compares \<open>TEXT\<close> values
  with the BINARY collation, which on UTF-8 is the lexicographic order of the code points.
  A string is therefore a list of code points, ordered lexicographically
  (\<open>HOL-Library.List_Lexorder\<close>); \<open>str ''abc''\<close> writes a literal.
\<close>

type_synonym pystr = "nat list"

abbreviation (input) str :: "string \<Rightarrow> pystr" where
  "str s \<equiv> map of_char s"

text \<open>The code points Python's \<open>str.strip()\<close> removes (those with \<open>str.isspace()\<close>).\<close>

definition isspace :: "nat \<Rightarrow> bool" where
  "isspace c \<longleftrightarrow>
     (9 \<le> c \<and> c \<le> 13) \<or> (28 \<le> c \<and> c \<le> 32) \<or> c = 133 \<or> c = 160 \<or> c = 5760 \<or>
     (8192 \<le> c \<and> c \<le> 8202) \<or> c = 8232 \<or> c = 8233 \<or> c = 8239 \<or> c = 8287 \<or> c = 12288"

definition strip :: "pystr \<Rightarrow> pystr" where
  "strip s = rev (dropWhile isspace (rev (dropWhile isspace s)))"

text \<open>
  \<open>datetime.now().strftime("%Y-%m-%d %H:%M:%S")\<close>: the fields of the local clock, the year
  on four digits and every other field on two. (Python's datetime has years 1 to 9999; all
  platforms agree on four digits from year 1000 on.)
\<close>

record datetime =
  year :: nat
  month :: nat
  day :: nat
  hour :: nat
  minute :: nat
  second :: nat

definition digit :: "nat \<Rightarrow> nat" where
  "digit n = 48 + n mod 10"

definition pad2 :: "nat \<Rightarrow> pystr" where
  "pad2 n = [digit (n div 10), digit n]"

definition pad4 :: "nat \<Rightarrow> pystr" where
  "pad4 n = [digit (n div 1000), digit (n div 100), digit (n div 10), digit n]"

definition strftime :: "datetime \<Rightarrow> pystr" where
  "strftime t = pad4 (year t) @ str ''-'' @ pad2 (month t) @ str ''-'' @ pad2 (day t) @ str '' ''
     @ pad2 (hour t) @ str '':'' @ pad2 (minute t) @ str '':'' @ pad2 (second t)"

text \<open>A call that may raise: the exception is a value, so that \<open>try/except\<close> is a case split.\<close>

datatype 'a pyres = Raises | Returns 'a

section \<open>Location helper\<close>

text \<open>
  What \<open>geocoder.ip("me")\<close> hands back, as far as \<open>get_ip_location\<close> looks at it.
  An attribute read with \<open>getattr(g, name, None)\<close> is \<open>None\<close> (also when absent), a string,
  or some other object, which is truthy and which \<open>", ".join\<close> refuses with a TypeError.
  \<open>g.latlng\<close> may raise, be \<open>None\<close>, or be a list whose items \<open>float()\<close> converts (\<open>Num\<close>)
  or refuses (\<open>NotNum\<close>).
\<close>

datatype pyattr = PyNone | PyStr pystr | PyObj

datatype pynum = Num real | NotNum

record geo =
  latlng :: "pynum list option pyres"
  city :: pyattr
  state :: pyattr
  country :: pyattr

definition truthy :: "pyattr \<Rightarrow> bool" where
  "truthy a = (case a of PyNone \<Rightarrow> False | PyStr s \<Rightarrow> s \<noteq> [] | PyObj \<Rightarrow> True)"

definition float :: "pynum \<Rightarrow> real pyres" where
  "float x = (case x of Num r \<Rightarrow> Returns r | NotNum \<Rightarrow> Raises)"

text \<open>\<open>xs[i]\<close> on a list: IndexError out of range.\<close>

definition getitem :: "'a list \<Rightarrow> nat \<Rightarrow> 'a pyres" where
  "getitem xs i = (if i < length xs then Returns (xs ! i) else Raises)"

text \<open>\<open>", ".join(items)\<close>: TypeError unless every item is a string.\<close>

fun join :: "pyattr list \<Rightarrow> pystr pyres" where
  "join [] = Returns []"
| "join (PyStr s # xs) =
     (case join xs of Raises \<Rightarrow> Raises
      | Returns t \<Rightarrow> Returns (if xs = [] then s else s @ str '', '' @ t))"
| "join (_ # xs) = Raises"

definition Unknown :: pystr where
  "Unknown = str ''Unknown''"

text \<open>The body of the \<open>try\<close> block, an exception anywhere in it being \<open>Raises\<close>.\<close>

definition get_ip_location_try :: "geo pyres \<Rightarrow> (real option \<times> real option \<times> pystr) pyres" where
  "get_ip_location_try ip =
     (case ip of Raises \<Rightarrow> Raises
      | Returns g \<Rightarrow>
         (case latlng g of Raises \<Rightarrow> Raises
          | Returns ll \<Rightarrow>
             (case (if ll = None \<or> ll = Some [] then Returns (None, None)
                    else (case getitem (the ll) 0 of Raises \<Rightarrow> Raises
                          | Returns a \<Rightarrow>
                             (case float a of Raises \<Rightarrow> Raises
                              | Returns lat \<Rightarrow>
                                 (case getitem (the ll) 1 of Raises \<Rightarrow> Raises
                                  | Returns b \<Rightarrow>
                                     (case float b of Raises \<Rightarrow> Raises
                                      | Returns lon \<Rightarrow> Returns (Some lat, Some lon))))))
              of Raises \<Rightarrow> Raises
              | Returns (lat, lon) \<Rightarrow>
                 (case join (filter truthy [city g, state g, country g]) of Raises \<Rightarrow> Raises
                  | Returns a \<Rightarrow> Returns (lat, lon, if a = [] then Unknown else a)))))"

definition get_ip_location :: "geo pyres \<Rightarrow> real option \<times> real option \<times> pystr" where
  "get_ip_location ip =
     (case get_ip_location_try ip of Raises \<Rightarrow> (None, None, Unknown) | Returns r \<Rightarrow> r)"

section \<open>The attendance table\<close>

text \<open>
  One row of \<open>attendance\<close>; every column but the key is nullable. The table is the list of
  its rows together with the counter SQLite keeps for an AUTOINCREMENT key (the largest id
  ever given out).
\<close>

record row =
  row_id :: int
  username :: "pystr option"
  latitude :: "real option"
  longitude :: "real option"
  address :: "pystr option"
  checkin_time :: "pystr option"
  checkin_remark :: "pystr option"
  checkin_latitude :: "real option"
  checkin_longitude :: "real option"
  checkout_time :: "pystr option"
  checkout_remark :: "pystr option"
  checkout_latitude :: "real option"
  checkout_longitude :: "real option"

record db =
  rows :: "row list"
  seq :: int

text \<open>The key of a new row: one more than the largest id in the table or ever given out.\<close>

definition next_id :: "db \<Rightarrow> int" where
  "next_id d = fold max (map row_id (rows d)) (seq d) + 1"

definition insert_row :: "(int \<Rightarrow> row) \<Rightarrow> db \<Rightarrow> db" where
  "insert_row mk d = \<lparr>rows = rows d @ [mk (next_id d)], seq = next_id d\<rparr>"

text \<open>\<open>ORDER BY id DESC\<close>.\<close>

definition order_by_id_desc :: "row list \<Rightarrow> row list" where
  "order_by_id_desc rs = rev (sort_key row_id rs)"

datatype error = ValidationError | NotFound

datatype message = CheckedIn pystr pystr | CheckedOut pystr

section \<open>Check-in and check-out\<close>

text \<open>
  The two button handlers, with what they read from outside as arguments: the outcome of
  \<open>geocoder.ip\<close>, the clock, the name field and the remark field. \<open>st.error\<close> is
  \<open>ValidationError\<close>, the warning of the check-out is \<open>NotFound\<close>. Storage statements are
  taken to succeed.
\<close>

definition checkIn :: "geo pyres \<Rightarrow> datetime \<Rightarrow> pystr \<Rightarrow> pystr \<Rightarrow> db \<Rightarrow> (error + message) \<times> db" where
  "checkIn ip now name checkin_remark' d =
     (if strip name = [] then (Inl ValidationError, d)
      else
        (case get_ip_location ip of (lat, lon, addr) \<Rightarrow>
           let t = strftime now in
           (Inr (CheckedIn t addr),
            insert_row (\<lambda>i. \<lparr>row_id = i, username = Some name, latitude = lat, longitude = lon,
                address = Some addr, checkin_time = Some t, checkin_remark = Some checkin_remark',
                checkin_latitude = lat, checkin_longitude = lon, checkout_time = None,
                checkout_remark = None, checkout_latitude = None, checkout_longitude = None\<rparr>) d)))"

text \<open>\<open>SELECT id ... WHERE username=? AND checkout_time IS NULL ORDER BY id DESC LIMIT 1\<close>,
  then \<open>fetchone()\<close>.\<close>

definition is_open :: "pystr \<Rightarrow> row \<Rightarrow> bool" where
  "is_open name r \<longleftrightarrow> username r = Some name \<and> checkout_time r = None"

definition select_open :: "pystr \<Rightarrow> db \<Rightarrow> int option" where
  "select_open name d =
     (case order_by_id_desc (filter (is_open name) (rows d)) of
        [] \<Rightarrow> None | r # _ \<Rightarrow> Some (row_id r))"

text \<open>\<open>UPDATE attendance SET checkout_time=?, ... WHERE id=?\<close>.\<close>

definition set_checkout :: "pystr \<Rightarrow> pystr \<Rightarrow> real option \<Rightarrow> real option \<Rightarrow> row \<Rightarrow> row" where
  "set_checkout t rem lat lon r =
     r\<lparr>checkout_time := Some t, checkout_remark := Some rem,
       checkout_latitude := lat, checkout_longitude := lon\<rparr>"

definition update_checkout :: "int \<Rightarrow> pystr \<Rightarrow> pystr \<Rightarrow> real option \<Rightarrow> real option \<Rightarrow> db \<Rightarrow> db" where
  "update_checkout record_id t rem lat lon d =
     d\<lparr>rows := map (\<lambda>r. if row_id r = record_id then set_checkout t rem lat lon r else r) (rows d)\<rparr>"

definition checkOut :: "geo pyres \<Rightarrow> datetime \<Rightarrow> pystr \<Rightarrow> pystr \<Rightarrow> db \<Rightarrow> (error + message) \<times> db" where
  "checkOut ip now name checkout_remark' d =
     (if strip name = [] then (Inl ValidationError, d)
      else
        (case select_open name d of
           None \<Rightarrow> (Inl NotFound, d)
         | Some record_id \<Rightarrow>
            (case get_ip_location ip of (lat, lon, _) \<Rightarrow>
               let t = strftime now in
               (Inr (CheckedOut t), update_checkout record_id t checkout_remark' lat lon d))))"

section \<open>History and search\<close>

text \<open>\<open>SELECT * FROM attendance WHERE username=? ORDER BY id DESC\<close>, asked only for a name
  that is not blank.\<close>

definition history :: "pystr \<Rightarrow> db \<Rightarrow> row list option" where
  "history name d =
     (if strip name \<noteq> [] then Some (order_by_id_desc (filter (\<lambda>r. username r = Some name) (rows d)))
      else None)"

text \<open>
  The admin query. \<open>substr(checkin_time,1,10)\<close> is the first ten characters, \<open>BETWEEN\<close> is
  \<open>\<le>\<close> on both sides in the order of strings, and a NULL on the left of \<open>=\<close> or \<open>BETWEEN\<close>
  selects nothing. \<open>start_str\<close> and \<open>end_str\<close> are the two dates as \<open>strftime\<close> printed them.
\<close>

definition search_where :: "pystr \<Rightarrow> pystr \<Rightarrow> pystr \<Rightarrow> row \<Rightarrow> bool" where
  "search_where selected_user start_str end_str r \<longleftrightarrow>
     (selected_user \<noteq> str ''All'' \<longrightarrow> username r = Some selected_user) \<and>
     (case checkin_time r of None \<Rightarrow> False
      | Some t \<Rightarrow> start_str \<le> take 10 t \<and> take 10 t \<le> end_str)"

definition search :: "pystr \<Rightarrow> pystr \<Rightarrow> pystr \<Rightarrow> db \<Rightarrow> row list" where
  "search selected_user start_str end_str d =
     order_by_id_desc (filter (search_where selected_user start_str end_str) (rows d))"

section \<open>Schema migration\<close>

text \<open>
  The columns of the table, in order, each with its declared type. \<open>init_db\<close> creates the
  table only when it is absent.
\<close>

type_synonym schema = "(pystr \<times> pystr) list"

definition created_schema :: schema where
  "created_schema =
     [(str ''id'', str ''INTEGER''), (str ''username'', str ''TEXT''),
      (str ''latitude'', str ''REAL''), (str ''longitude'', str ''REAL''),
      (str ''address'', str ''TEXT''), (str ''checkin_time'', str ''TEXT''),
      (str ''checkin_remark'', str ''TEXT''), (str ''checkin_latitude'', str ''REAL''),
      (str ''checkin_longitude'', str ''REAL''), (str ''checkout_time'', str ''TEXT''),
      (str ''checkout_remark'', str ''TEXT''), (str ''checkout_latitude'', str ''REAL''),
      (str ''checkout_longitude'', str ''REAL'')]"

definition init_db :: "schema option \<Rightarrow> schema" where
  "init_db existing = (case existing of None \<Rightarrow> created_schema | Some s \<Rightarrow> s)"

definition new_cols :: schema where
  "new_cols =
     [(str ''latitude'', str ''REAL''), (str ''longitude'', str ''REAL''),
      (str ''checkin_remark'', str ''TEXT''), (str ''checkout_remark'', str ''TEXT''),
      (str ''checkin_latitude'', str ''REAL''), (str ''checkin_longitude'', str ''REAL''),
      (str ''checkout_latitude'', str ''REAL''), (str ''checkout_longitude'', str ''REAL'')]"

text \<open>
  \<open>ALTER TABLE attendance ADD COLUMN\<close>: SQLite refuses a column whose name the table already
  has, and it compares column names without regard to the case of ASCII letters. The second
  component logs the statements run.
\<close>

definition lower :: "nat \<Rightarrow> nat" where
  "lower c = (if 65 \<le> c \<and> c \<le> 90 then c + 32 else c)"

definition nocase :: "pystr \<times> pystr \<Rightarrow> pystr" where
  "nocase c = map lower (fst c)"

definition alter_add_column :: "pystr \<times> pystr \<Rightarrow> schema \<times> schema \<Rightarrow> (schema \<times> schema) pyres" where
  "alter_add_column c st =
     (if nocase c \<in> set (map nocase (fst st)) then Raises
      else Returns (fst st @ [c], snd st @ [c]))"

text \<open>The loop over \<open>new_cols.items()\<close>; \<open>cols\<close> is read once, before the loop.\<close>

fun add_missing :: "pystr list \<Rightarrow> schema \<Rightarrow> schema \<times> schema \<Rightarrow> (schema \<times> schema) pyres" where
  "add_missing cols [] st = Returns st"
| "add_missing cols (c # rest) st =
     (if fst c \<notin> set cols
      then (case alter_add_column c st of Raises \<Rightarrow> Raises
            | Returns st' \<Rightarrow> add_missing cols rest st')
      else add_missing cols rest st)"

definition migrate_columns_add :: "schema \<Rightarrow> (schema \<times> schema) pyres" where
  "migrate_columns_add s = add_missing (map fst s) new_cols (s, [])"

text \<open>The \<open>UPDATE\<close> that ends \<open>migrate_columns\<close>.\<close>

definition migrate_where :: "row \<Rightarrow> bool" where
  "migrate_where r \<longleftrightarrow>
     (latitude r = None \<or> longitude r = None) \<and>
     checkin_latitude r \<noteq> None \<and> checkin_longitude r \<noteq> None"

definition migrate_row :: "row \<Rightarrow> row" where
  "migrate_row r =
     (if migrate_where r then r\<lparr>latitude := checkin_latitude r, longitude := checkin_longitude r\<rparr>
      else r)"

definition migrate_columns_update :: "db \<Rightarrow> db" where
  "migrate_columns_update d = d\<lparr>rows := map migrate_row (rows d)\<rparr>"

section \<open>Sequences of operations\<close>

datatype op =
  CheckIn "geo pyres" datetime pystr pystr
| CheckOut "geo pyres" datetime pystr pystr

fun step :: "op \<Rightarrow> db \<Rightarrow> db" where
  "step (CheckIn ip now name rem) d = snd (checkIn ip now name rem d)"
| "step (CheckOut ip now name rem) d = snd (checkOut ip now name rem d)"

definition run :: "op list \<Rightarrow> db \<Rightarrow> db" where
  "run ops d = fold step ops d"

definition empty_db :: db where
  "empty_db = \<lparr>rows = [], seq = 0\<rparr>"

definition open_count :: "pystr \<Rightarrow> db \<Rightarrow> nat" where
  "open_count name d = length (filter (is_open name) (rows d))"

text \<open>A sequence in which nobody checks in while holding an open record.\<close>

fun no_double_checkin :: "op list \<Rightarrow> db \<Rightarrow> bool" where
  "no_double_checkin [] d = True"
| "no_double_checkin (CheckIn ip now name rem # ops) d =
     (open_count name d = 0 \<and> no_double_checkin ops (step (CheckIn ip now name rem) d))"
| "no_double_checkin (CheckOut ip now name rem # ops) d =
     no_double_checkin ops (step (CheckOut ip now name rem) d)"

text \<open>What holds of a table the program itself has filled: the key is unique (PRIMARY KEY)
  and no stored name is blank.\<close>

definition pk_ok :: "db \<Rightarrow> bool" where
  "pk_ok d \<longleftrightarrow> distinct (map row_id (rows d))"

definition names_ok :: "db \<Rightarrow> bool" where
  "names_ok d \<longleftrightarrow> list_all (\<lambda>r. case username r of None \<Rightarrow> True | Some n \<Rightarrow> strip n \<noteq> []) (rows d)"

section \<open>The resolver's contract\<close>

text \<open>The fields that are available: the strings among them that are not empty.\<close>

fun present :: "pyattr list \<Rightarrow> pystr list" where
  "present [] = []"
| "present (PyStr s # fs) = (if s = [] then present fs else s # present fs)"
| "present (_ # fs) = present fs"

fun comma_join :: "pystr list \<Rightarrow> pystr" where
  "comma_join [] = []"
| "comma_join [s] = s"
| "comma_join (s # t # ts) = s @ str '', '' @ comma_join (t # ts)"

definition address_of :: "pyattr list \<Rightarrow> pystr" where
  "address_of fs = (if present fs = [] then Unknown else comma_join (present fs))"

text \<open>The coordinates a well-formed \<open>latlng\<close> gives (none when it is \<open>None\<close> or empty);
  \<open>None\<close> for a malformed one: reading it raises, it has fewer than two items, or one of
  the first two is not a number.\<close>

fun coords :: "pynum list option pyres \<Rightarrow> (real option \<times> real option) option" where
  "coords (Returns None) = Some (None, None)"
| "coords (Returns (Some [])) = Some (None, None)"
| "coords (Returns (Some (Num a # Num b # _))) = Some (Some a, Some b)"
| "coords _ = None"

section \<open>The shape of a timestamp\<close>

definition is_digit :: "nat \<Rightarrow> bool" where
  "is_digit c \<longleftrightarrow> 48 \<le> c \<and> c \<le> 57"

text \<open>A string with every digit replaced by \<open>0\<close>.\<close>

definition shape :: "pystr \<Rightarrow> pystr" where
  "shape s = map (\<lambda>c. if is_digit c then 48 else c) s"

section \<open>Example data\<close>

definition t0 :: datetime where
  "t0 = \<lparr>year = 2024, month = 1, day = 1, hour = 9, minute = 0, second = 0\<rparr>"

definition t1 :: datetime where
  "t1 = \<lparr>year = 2024, month = 1, day = 1, hour = 17, minute = 0, second = 0\<rparr>"

definition ip0 :: "geo pyres" where
  "ip0 = Returns \<lparr>latlng = Returns (Some [Num 12.9, Num 77.6]), city = PyStr (str ''Bengaluru''),
     state = PyStr (str ''KA''), country = PyStr (str ''India'')\<rparr>"

definition alice_row :: row where
  "alice_row = \<lparr>row_id = 2, username = Some (str ''alice''), latitude = Some 12.9,
     longitude = Some 77.6, address = Some (str ''Bengaluru, KA, India''),
     checkin_time = Some (str ''2024-01-01 09:00:00''), checkin_remark = Some (str ''start''),
     checkin_latitude = Some 12.9, checkin_longitude = Some 77.6, checkout_time = None,
     checkout_remark = None, checkout_latitude = None, checkout_longitude = None\<rparr>"

definition bob_row :: row where
  "bob_row = \<lparr>row_id = 1, username = Some (str ''bob''), latitude = None,
     longitude = None, address = Some (str ''Unknown''),
     checkin_time = Some (str ''2023-12-31 08:30:00''), checkin_remark = Some [],
     checkin_latitude = None, checkin_longitude = None, checkout_time = None,
     checkout_remark = None, checkout_latitude = None, checkout_longitude = None\<rparr>"

definition d1 :: db where
  "d1 = \<lparr>rows = [bob_row, alice_row], seq = 2\<rparr>"

definition legacy_row :: row where
  "legacy_row = \<lparr>row_id = 3, username = Some (str ''dave''), latitude = None,
     longitude = None, address = Some (str ''Pune, MH, India''),
     checkin_time = Some (str ''2024-01-15 10:00:00''), checkin_remark = None,
     checkin_latitude = Some 18.5, checkin_longitude = Some 73.8,
     checkout_time = Some (str ''2024-01-15 18:00:00''),
     checkout_remark = None, checkout_latitude = None, checkout_longitude = None\<rparr>"

definition d2 :: db where
  "d2 = \<lparr>rows = [bob_row, alice_row, legacy_row], seq = 3\<rparr>"

section \<open>The migration's contract\<close>

text \<open>The expected columns the table does not have, as the loop sees them.\<close>

definition missing :: "schema \<Rightarrow> schema" where
  "missing s = filter (\<lambda>c. fst c \<notin> set (map fst s)) new_cols"

text \<open>No missing column is in the table under another spelling of its letters' case.\<close>

definition no_case_clash :: "schema \<Rightarrow> bool" where
  "no_case_clash s \<longleftrightarrow> list_all (\<lambda>c. nocase c \<notin> set (map nocase s)) (missing s)"

definition legacy_schema :: schema where
  "legacy_schema =
     [(str ''id'', str ''INTEGER''), (str ''username'', str ''TEXT''),
      (str ''address'', str ''TEXT''), (str ''checkin_time'', str ''TEXT''),
      (str ''checkout_time'', str ''TEXT''), (str ''latitude'', str ''REAL''),
      (str ''longitude'', str ''REAL'')]"

text \<open>A table with every column of \<open>init_db\<close>, one of them spelt with a capital letter.\<close>

definition clash_schema :: schema where
  "clash_schema =
     [(str ''id'', str ''INTEGER''), (str ''username'', str ''TEXT''),
      (str ''Latitude'', str ''REAL''), (str ''longitude'', str ''REAL''),
      (str ''address'', str ''TEXT''), (str ''checkin_time'', str ''TEXT''),
      (str ''checkin_remark'', str ''TEXT''), (str ''checkin_latitude'', str ''REAL''),
      (str ''checkin_longitude'', str ''REAL''), (str ''checkout_time'', str ''TEXT''),
      (str ''checkout_remark'', str ''TEXT''), (str ''checkout_latitude'', str ''REAL''),
      (str ''checkout_longitude'', str ''REAL'')]"

section \<open>Auxiliary facts\<close>

lemma strip_Nil_iff: "strip s = [] \<longleftrightarrow> (\<forall>c\<in>set s. isspace c)"
proof
  assume "strip s = []"
  then have "dropWhile isspace (rev (dropWhile isspace s)) = []" by (simp add: strip_def)
  then have "\<forall>c\<in>set (rev (dropWhile isspace s)). isspace c" by (simp add: dropWhile_eq_Nil_conv)
  then have "dropWhile isspace s = []"
    by (metis hd_dropWhile hd_in_set set_rev)
  then show "\<forall>c\<in>set s. isspace c" by (simp add: dropWhile_eq_Nil_conv)
next
  assume "\<forall>c\<in>set s. isspace c"
  then have "dropWhile isspace s = []" by (simp add: dropWhile_eq_Nil_conv)
  then show "strip s = []" by (simp only: strip_def rev.simps dropWhile.simps)
qed

lemma fold_max_ge: "(a::int) \<le> fold max xs a"
  by (induction xs arbitrary: a) (auto intro: order_trans [OF max.cobounded2])

lemma fold_max_mem: "x \<in> set xs \<Longrightarrow> (x::int) \<le> fold max xs a"
  by (induction xs arbitrary: a) (auto intro: order_trans [OF max.cobounded1 fold_max_ge])

lemma next_id_gt: "r \<in> set (rows d) \<Longrightarrow> row_id r < next_id d"
  using fold_max_mem [of "row_id r" "map row_id (rows d)" "seq d"] by (simp add: next_id_def)

lemma next_id_fresh: "next_id d \<notin> set (map row_id (rows d))"
  using next_id_gt by fastforce

lemma is_digit_digit: "is_digit (digit n)"
  by (simp add: is_digit_def digit_def)

lemma shape_strftime: "shape (strftime t) = str ''0000-00-00 00:00:00''"
  by (simp add: shape_def strftime_def pad2_def pad4_def is_digit_digit) (simp add: is_digit_def)

lemma strftime_t0: "strftime t0 = str ''2024-01-01 09:00:00''"
  by (simp add: strftime_def t0_def pad2_def pad4_def digit_def)

lemma strftime_t1: "strftime t1 = str ''2024-01-01 17:00:00''"
  by (simp add: strftime_def t1_def pad2_def pad4_def digit_def)

lemma get_ip_location_ip0:
  "get_ip_location ip0 = (Some 12.9, Some 77.6, str ''Bengaluru, KA, India'')"
  by (simp add: get_ip_location_def get_ip_location_try_def ip0_def getitem_def float_def
      truthy_def Unknown_def)

lemma d1_ok: "pk_ok d1" "names_ok d1"
  by (simp_all add: pk_ok_def names_ok_def d1_def alice_row_def bob_row_def strip_def isspace_def)

lemma d1_open: "open_count (str ''alice'') d1 = 1" "open_count (str ''carol'') d1 = 0"
  by (simp_all add: open_count_def is_open_def d1_def alice_row_def bob_row_def)

lemma set_order_by_id_desc: "set (order_by_id_desc rs) = set rs"
  by (simp add: order_by_id_desc_def)

lemma order_by_id_desc_Nil: "order_by_id_desc rs = [] \<longleftrightarrow> rs = []"
  by (metis set_order_by_id_desc set_empty)

lemma order_by_id_desc_hd:
  assumes "order_by_id_desc rs = r # rest"
  shows "r \<in> set rs \<and> (\<forall>x\<in>set rs. row_id x \<le> row_id r)"
proof -
  from assms have s: "sort_key row_id rs = rev rest @ [r]"
    by (simp add: order_by_id_desc_def rev_eq_Cons_iff)
  have "sorted (map row_id (sort_key row_id rs))" by simp
  with s have "\<forall>x\<in>set (rev rest). row_id x \<le> row_id r"
    by (simp add: sorted_append)
  moreover have "set rs = set (rev rest @ [r])" using s by (metis set_sort)
  ultimately show ?thesis by auto
qed

lemma map_update_at:
  assumes "distinct (map f rs)" "k < length rs"
  shows "map (\<lambda>r. if f r = f (rs ! k) then g r else r) rs = rs[k := g (rs ! k)]"
proof (rule nth_equalityI)
  show "length (map (\<lambda>r. if f r = f (rs ! k) then g r else r) rs) = length (rs[k := g (rs ! k)])"
    by simp
next
  fix i assume "i < length (map (\<lambda>r. if f r = f (rs ! k) then g r else r) rs)"
  then have i: "i < length rs" by simp
  have "f (rs ! i) = f (rs ! k) \<longleftrightarrow> i = k"
    using assms i by (metis distinct_conv_nth length_map nth_map)
  with i assms(2) show "map (\<lambda>r. if f r = f (rs ! k) then g r else r) rs ! i = rs[k := g (rs ! k)] ! i"
    by (simp add: nth_list_update)
qed

lemma select_open_None: "select_open name d = None \<longleftrightarrow> open_count name d = 0"
  using order_by_id_desc_Nil [of "filter (is_open name) (rows d)"]
  by (auto simp: select_open_def open_count_def split: list.splits)

lemma select_open_Some:
  assumes "select_open name d = Some i"
  shows "\<exists>r\<in>set (rows d). row_id r = i \<and> is_open name r \<and>
           (\<forall>x\<in>set (rows d). is_open name x \<longrightarrow> row_id x \<le> i)"
proof -
  from assms obtain r rest where o: "order_by_id_desc (filter (is_open name) (rows d)) = r # rest"
    and i: "i = row_id r"
    by (auto simp: select_open_def split: list.splits)
  from order_by_id_desc_hd [OF o] i show ?thesis by auto
qed

lemma names_ok_open: "names_ok d \<Longrightarrow> r \<in> set (rows d) \<Longrightarrow> is_open name r \<Longrightarrow> strip name \<noteq> []"
  by (auto simp: names_ok_def list_all_iff is_open_def split: option.splits)

section \<open>Check-in\<close>

text \<open>
  C1. A check-in under a name that is not blank (some character of it is not whitespace)
  appends exactly one row to the table and changes nothing else. The new row has a key no
  row had, the name as entered, \<open>checkin_time\<close> the clock printed as
  \<open>YYYY-MM-DD HH:MM:SS\<close> (digits at the places of the letters, which \<open>shape\<close> says), the
  remark given, the resolver's latitude and longitude in both pairs of coordinate
  columns and its address, and the four check-out columns NULL.
\<close>

theorem checkIn_inserts:
  assumes "\<exists>c\<in>set name. \<not> isspace c"
  shows "\<exists>lat lon addr i.
      get_ip_location ip = (lat, lon, addr) \<and> i = next_id d \<and> i \<notin> set (map row_id (rows d)) \<and>
      shape (strftime now) = str ''0000-00-00 00:00:00'' \<and>
      checkIn ip now name rem d =
        (Inr (CheckedIn (strftime now) addr),
         \<lparr>rows = rows d @
            [\<lparr>row_id = i, username = Some name, latitude = lat, longitude = lon,
              address = Some addr, checkin_time = Some (strftime now), checkin_remark = Some rem,
              checkin_latitude = lat, checkin_longitude = lon, checkout_time = None,
              checkout_remark = None, checkout_latitude = None, checkout_longitude = None\<rparr>],
          seq = i\<rparr>)"
proof -
  from assms have nb: "strip name \<noteq> []" by (simp add: strip_Nil_iff)
  obtain lat lon addr where g: "get_ip_location ip = (lat, lon, addr)"
    by (cases "get_ip_location ip") auto
  show ?thesis
    using nb g next_id_fresh [of d] shape_strftime [of now]
    by (simp add: checkIn_def insert_row_def Let_def)
qed

theorem checkIn_inserts_witness:
  "(\<exists>c\<in>set (str ''alice''). \<not> isspace c) \<and>
   checkIn ip0 t0 (str ''alice'') (str ''start'') empty_db =
     (Inr (CheckedIn (str ''2024-01-01 09:00:00'') (str ''Bengaluru, KA, India'')),
      \<lparr>rows = [\<lparr>row_id = 1, username = Some (str ''alice''), latitude = Some 12.9,
          longitude = Some 77.6, address = Some (str ''Bengaluru, KA, India''),
          checkin_time = Some (str ''2024-01-01 09:00:00''), checkin_remark = Some (str ''start''),
          checkin_latitude = Some 12.9, checkin_longitude = Some 77.6, checkout_time = None,
          checkout_remark = None, checkout_latitude = None, checkout_longitude = None\<rparr>],
       seq = 1\<rparr>)"
proof -
  have h: "\<exists>c\<in>set (str ''alice''). \<not> isspace c" by (simp add: isspace_def)
  have n: "next_id empty_db = 1" by (simp add: next_id_def empty_db_def)
  from checkIn_inserts [OF h, of ip0 empty_db t0 "str ''start''"] h show ?thesis
    by (simp add: get_ip_location_ip0 strftime_t0 n) (simp add: empty_db_def)
qed

text \<open>
  C4. A check-in under a blank name (empty, or whitespace only) is refused with
  \<open>ValidationError\<close> and the table stays as it was.
\<close>

theorem checkIn_blank:
  "\<forall>c\<in>set name. isspace c \<Longrightarrow> checkIn ip now name rem d = (Inl ValidationError, d)"
  by (simp add: checkIn_def strip_Nil_iff)

theorem checkIn_blank_witness:
  "list_all isspace (str ''  '') \<and>
   checkIn ip0 t0 (str ''  '') (str ''start'') empty_db = (Inl ValidationError, empty_db)"
proof -
  have h: "\<forall>c\<in>set (str ''  ''). isspace c" by (simp add: isspace_def)
  from checkIn_blank [OF h] h show ?thesis by (simp add: list_all_iff)
qed

section \<open>Tables the program fills\<close>

text \<open>Starting from the empty table, check-in and check-out keep the key unique and never
  store a blank name.\<close>

lemma ok_empty_db: "pk_ok empty_db" "names_ok empty_db"
  by (simp_all add: pk_ok_def names_ok_def empty_db_def)

lemma ok_checkIn:
  assumes "pk_ok d" "names_ok d"
  shows "pk_ok (snd (checkIn ip now name rem d))" "names_ok (snd (checkIn ip now name rem d))"
  using assms next_id_fresh [of d]
  by (auto simp: checkIn_def insert_row_def pk_ok_def names_ok_def Let_def split: prod.splits)

lemma ok_update_checkout:
  assumes "pk_ok d" "names_ok d"
  shows "pk_ok (update_checkout i t rem lat lon d)" "names_ok (update_checkout i t rem lat lon d)"
proof -
  have "row_id \<circ> (\<lambda>r. if row_id r = i then set_checkout t rem lat lon r else r) = row_id"
    by (rule ext) (simp add: set_checkout_def)
  with assms(1) show "pk_ok (update_checkout i t rem lat lon d)"
    by (simp add: pk_ok_def update_checkout_def)
  from assms(2) show "names_ok (update_checkout i t rem lat lon d)"
    by (auto simp: names_ok_def update_checkout_def list_all_iff set_checkout_def)
qed

lemma ok_checkOut:
  assumes "pk_ok d" "names_ok d"
  shows "pk_ok (snd (checkOut ip now name rem d))" "names_ok (snd (checkOut ip now name rem d))"
  using assms ok_update_checkout [OF assms]
  by (auto simp: checkOut_def Let_def split: option.splits prod.splits)

lemma ok_step: "pk_ok d \<Longrightarrow> names_ok d \<Longrightarrow> pk_ok (step a d) \<and> names_ok (step a d)"
  by (cases a) (simp_all add: ok_checkIn ok_checkOut)

lemma ok_run: "pk_ok d \<Longrightarrow> names_ok d \<Longrightarrow> pk_ok (run ops d) \<and> names_ok (run ops d)"
  unfolding run_def
  by (induction ops arbitrary: d) (simp_all add: ok_step)

lemma ok_reachable: "pk_ok (run ops empty_db) \<and> names_ok (run ops empty_db)"
  using ok_run [OF ok_empty_db] .

section \<open>Check-out\<close>

text \<open>
  C2. In a table with a unique key and no blank name stored (every table reached from the
  empty one is such a table), a check-out under a name with at least one open row succeeds. One position \<open>k\<close> of the table
  changes: it holds an open row of that name whose id is the highest among the open rows
  of the name, and the row there gets \<open>checkout_time\<close> (the clock), \<open>checkout_remark\<close>,
  \<open>checkout_latitude\<close> and \<open>checkout_longitude\<close> (the resolver's); its other columns, every
  other row and the key counter are as before.
\<close>

theorem checkOut_updates:
  assumes "pk_ok d" "names_ok d" "open_count name d > 0"
  shows "\<exists>k<length (rows d).
      is_open name (rows d ! k) \<and>
      (\<forall>r\<in>set (rows d). is_open name r \<longrightarrow> row_id r \<le> row_id (rows d ! k)) \<and>
      checkOut ip now name rem d =
        (Inr (CheckedOut (strftime now)),
         d\<lparr>rows := (rows d)[k := (rows d ! k)\<lparr>checkout_time := Some (strftime now),
              checkout_remark := Some rem,
              checkout_latitude := fst (get_ip_location ip),
              checkout_longitude := fst (snd (get_ip_location ip))\<rparr>]\<rparr>)"
proof -
  from assms(3) obtain i where s: "select_open name d = Some i"
    using select_open_None [of name d] by (cases "select_open name d") auto
  from select_open_Some [OF s] obtain r where r: "r \<in> set (rows d)" "row_id r = i"
    "is_open name r" and mx: "\<forall>x\<in>set (rows d). is_open name x \<longrightarrow> row_id x \<le> i" by blast
  from r(1) obtain k where k: "k < length (rows d)" "rows d ! k = r"
    by (auto simp: in_set_conv_nth)
  from names_ok_open [OF assms(2) r(1) r(3)] have nb: "strip name \<noteq> []" .
  have upd: "map (\<lambda>x. if row_id x = row_id (rows d ! k) then set_checkout t rem lat lon x else x) (rows d)
      = (rows d)[k := set_checkout t rem lat lon (rows d ! k)]" for t lat lon
    using assms(1) k(1) unfolding pk_ok_def by (rule map_update_at)
  have "checkOut ip now name rem d =
        (Inr (CheckedOut (strftime now)),
         d\<lparr>rows := (rows d)[k := (rows d ! k)\<lparr>checkout_time := Some (strftime now),
              checkout_remark := Some rem,
              checkout_latitude := fst (get_ip_location ip),
              checkout_longitude := fst (snd (get_ip_location ip))\<rparr>]\<rparr>)"
    using nb s upd k(2) r(2)
    by (simp add: checkOut_def update_checkout_def set_checkout_def Let_def split: prod.splits)
  with k r mx show ?thesis by blast
qed

theorem checkOut_updates_witness:
  "pk_ok d1 \<and> names_ok d1 \<and> open_count (str ''alice'') d1 > 0 \<and>
   checkOut ip0 t1 (str ''alice'') (str ''done'') d1 =
     (Inr (CheckedOut (str ''2024-01-01 17:00:00'')),
      \<lparr>rows = [bob_row,
         alice_row\<lparr>checkout_time := Some (str ''2024-01-01 17:00:00''),
           checkout_remark := Some (str ''done''), checkout_latitude := Some 12.9,
           checkout_longitude := Some 77.6\<rparr>], seq = 2\<rparr>)"
proof -
  have h: "open_count (str ''alice'') d1 > 0" using d1_open(1) by simp
  from checkOut_updates [OF d1_ok h, of ip0 t1 "str ''done''"]
  obtain k where k: "k < length (rows d1)" "is_open (str ''alice'') (rows d1 ! k)"
    and c: "checkOut ip0 t1 (str ''alice'') (str ''done'') d1 =
        (Inr (CheckedOut (strftime t1)),
         d1\<lparr>rows := (rows d1)[k := (rows d1 ! k)\<lparr>checkout_time := Some (strftime t1),
              checkout_remark := Some (str ''done''),
              checkout_latitude := fst (get_ip_location ip0),
              checkout_longitude := fst (snd (get_ip_location ip0))\<rparr>]\<rparr>)"
    by blast
  from k(1) have "k = 0 \<or> k = 1" by (auto simp: d1_def)
  with k(2) have "k = 1" by (auto simp: d1_def is_open_def bob_row_def)
  with c have "checkOut ip0 t1 (str ''alice'') (str ''done'') d1 =
     (Inr (CheckedOut (str ''2024-01-01 17:00:00'')),
      \<lparr>rows = [bob_row,
         alice_row\<lparr>checkout_time := Some (str ''2024-01-01 17:00:00''),
           checkout_remark := Some (str ''done''), checkout_latitude := Some 12.9,
           checkout_longitude := Some 77.6\<rparr>], seq = 2\<rparr>)"
    by (simp add: get_ip_location_ip0 strftime_t1 d1_def)
  with d1_ok h show ?thesis by blast
qed

text \<open>
  C3, as the claim has it, fails for a blank name: the handler tests the name first, and
  a check-out under a single space on the empty table is not answered with \<open>NotFound\<close>.
\<close>

theorem checkOut_blank_counterexample:
  "open_count (str '' '') empty_db = 0 \<and>
   checkOut ip0 t1 (str '' '') (str ''done'') empty_db \<noteq> (Inl NotFound, empty_db)"
  by (simp add: open_count_def empty_db_def checkOut_def strip_def isspace_def)

text \<open>
  C3, amended. A check-out under a name with no open row leaves the table as it was; it is
  answered with \<open>NotFound\<close> when the name is not blank and with \<open>ValidationError\<close> when it is.
\<close>

theorem checkOut_no_open:
  assumes "open_count name d = 0"
  shows "checkOut ip now name rem d =
           (Inl (if \<forall>c\<in>set name. isspace c then ValidationError else NotFound), d)"
  using assms select_open_None [of name d]
  by (simp add: checkOut_def strip_Nil_iff)

theorem checkOut_no_open_witness:
  "open_count (str ''carol'') d1 = 0 \<and>
   checkOut ip0 t1 (str ''carol'') (str ''done'') d1 = (Inl NotFound, d1)"
proof -
  have h: "open_count (str ''carol'') d1 = 0" using d1_open(2) by simp
  from checkOut_no_open [OF h, of ip0 t1 "str ''done''"] h show ?thesis
    by (simp add: isspace_def)
qed

section \<open>Location helper\<close>

lemma truthy_simps: "truthy PyNone = False" "truthy (PyStr s) = (s \<noteq> [])" "truthy PyObj = True"
  by (simp_all add: truthy_def)

lemma comma_join_Cons: "comma_join (s # ts) = (if ts = [] then s else s @ str '', '' @ comma_join ts)"
  by (cases ts) simp_all

lemma filter_truthy_Nil: "PyObj \<notin> set fs \<Longrightarrow> filter truthy fs = [] \<longleftrightarrow> present fs = []"
  by (induction fs rule: present.induct) (auto simp: truthy_simps)

lemma join_filter_truthy:
  "join (filter truthy fs) = (if PyObj \<in> set fs then Raises else Returns (comma_join (present fs)))"
proof (induction fs rule: present.induct)
  case (2 s fs)
  then show ?case
    using filter_truthy_Nil [of fs]
    by (auto simp: truthy_simps comma_join_Cons split: pyres.splits)
qed (simp_all add: truthy_simps)

lemma comma_join_Nil: "[] \<notin> set ss \<Longrightarrow> comma_join ss = [] \<longleftrightarrow> ss = []"
  by (induction ss rule: comma_join.induct) auto

lemma present_nonempty: "[] \<notin> set (present fs)"
  by (induction fs rule: present.induct) auto

lemma latlng_try:
  "(if ll = None \<or> ll = Some [] then Returns (None, None)
    else (case getitem (the ll) 0 of Raises \<Rightarrow> Raises
          | Returns a \<Rightarrow>
             (case float a of Raises \<Rightarrow> Raises
              | Returns lat \<Rightarrow>
                 (case getitem (the ll) 1 of Raises \<Rightarrow> Raises
                  | Returns b \<Rightarrow>
                     (case float b of Raises \<Rightarrow> Raises
                      | Returns lon \<Rightarrow> Returns (Some lat, Some lon))))))
   = (case coords (Returns ll) of None \<Rightarrow> Raises | Some c \<Rightarrow> Returns c)"
  by (cases "Returns ll :: pynum list option pyres" rule: coords.cases)
     (auto simp: getitem_def float_def split: pynum.splits)

text \<open>
  C5. \<open>get_ip_location\<close> has a value for every outcome of the lookup, an exception anywhere
  in its body included. It is \<open>(None, None, "Unknown")\<close> when the lookup raises, when
  \<open>latlng\<close> is malformed, and when a field is not a string; it is the same when the answer is
  empty (no coordinates, no field). Otherwise the coordinates are those of \<open>latlng\<close> (none
  when it is \<open>None\<close> or empty) and the address is the city, state and country that are
  available, in this order, joined with a comma and a space, or \<open>"Unknown"\<close> when none is.
\<close>

theorem get_ip_location_total:
  "get_ip_location ip =
     (case ip of
        Raises \<Rightarrow> (None, None, Unknown)
      | Returns g \<Rightarrow>
         (case coords (latlng g) of
            None \<Rightarrow> (None, None, Unknown)
          | Some (lat, lon) \<Rightarrow>
             if PyObj \<in> set [city g, state g, country g] then (None, None, Unknown)
             else (lat, lon, address_of [city g, state g, country g])))"
proof (cases ip)
  case Raises
  then show ?thesis by (simp add: get_ip_location_def get_ip_location_try_def)
next
  case (Returns g)
  show ?thesis
  proof (cases "latlng g")
    case Raises
    with Returns show ?thesis by (simp add: get_ip_location_def get_ip_location_try_def)
  next
    case (Returns ll)
    have a: "comma_join (present fs) = [] \<longleftrightarrow> present fs = []" for fs
      using comma_join_Nil [OF present_nonempty] .
    from Returns \<open>ip = Returns g\<close> show ?thesis
      unfolding get_ip_location_def get_ip_location_try_def
      by (simp only: pyres.case latlng_try join_filter_truthy)
         (auto simp: address_of_def a split: option.splits)
  qed
qed

theorem get_ip_location_total_witness:
  "get_ip_location ip0 = (Some 12.9, Some 77.6, str ''Bengaluru, KA, India'') \<and>
   get_ip_location Raises = (None, None, str ''Unknown'') \<and>
   get_ip_location (Returns \<lparr>latlng = Returns None, city = PyNone, state = PyNone,
     country = PyNone\<rparr>) = (None, None, str ''Unknown'') \<and>
   get_ip_location (Returns \<lparr>latlng = Returns (Some [Num 48.8]), city = PyStr (str ''Paris''),
     state = PyNone, country = PyStr (str ''France'')\<rparr>) = (None, None, str ''Unknown'') \<and>
   get_ip_location (Returns \<lparr>latlng = Returns (Some []), city = PyStr (str ''Paris''),
     state = PyStr [], country = PyStr (str ''France'')\<rparr>) = (None, None, str ''Paris, France'')"
  using get_ip_location_total [of ip0] get_ip_location_total [of Raises]
    get_ip_location_total [of "Returns \<lparr>latlng = Returns None, city = PyNone, state = PyNone,
     country = PyNone\<rparr>"]
    get_ip_location_total [of "Returns \<lparr>latlng = Returns (Some [Num 48.8]),
     city = PyStr (str ''Paris''), state = PyNone, country = PyStr (str ''France'')\<rparr>"]
    get_ip_location_total [of "Returns \<lparr>latlng = Returns (Some []), city = PyStr (str ''Paris''),
     state = PyStr [], country = PyStr (str ''France'')\<rparr>"]
  by (simp add: ip0_def address_of_def Unknown_def)

section \<open>Backfill of the legacy coordinates\<close>

lemma migrate_row_idem: "migrate_row (migrate_row r) = migrate_row r"
  by (auto simp: migrate_row_def migrate_where_def)

text \<open>
  C6. The backfill keeps the number and order of the rows and the key counter. A row in
  which latitude or longitude is NULL while both check-in coordinates are set gets the
  check-in coordinates as its latitude and longitude; every other row, and every other column
  of a row that is filled, is as before. Running the backfill on its own result changes
  nothing.
\<close>

theorem migrate_columns_update_backfill:
  "length (rows (migrate_columns_update d)) = length (rows d) \<and>
   seq (migrate_columns_update d) = seq d \<and>
   (\<forall>i<length (rows d).
      rows (migrate_columns_update d) ! i =
        (if (latitude (rows d ! i) = None \<or> longitude (rows d ! i) = None) \<and>
            checkin_latitude (rows d ! i) \<noteq> None \<and> checkin_longitude (rows d ! i) \<noteq> None
         then (rows d ! i)\<lparr>latitude := checkin_latitude (rows d ! i),
                longitude := checkin_longitude (rows d ! i)\<rparr>
         else rows d ! i)) \<and>
   migrate_columns_update (migrate_columns_update d) = migrate_columns_update d"
  by (simp add: migrate_columns_update_def migrate_row_idem)
     (auto simp: migrate_row_def migrate_where_def)

theorem migrate_columns_update_backfill_witness:
  "2 < length (rows d2) \<and>
   rows (migrate_columns_update d2) ! 2 = legacy_row\<lparr>latitude := Some 18.5, longitude := Some 73.8\<rparr> \<and>
   rows (migrate_columns_update d2) ! 0 = bob_row \<and>
   rows (migrate_columns_update d2) ! 1 = alice_row \<and>
   length (rows (migrate_columns_update d2)) = 3 \<and>
   migrate_columns_update (migrate_columns_update d2) = migrate_columns_update d2"
proof -
  have l: "length (rows d2) = 3" by (simp add: d2_def)
  have r: "rows d2 ! 0 = bob_row" "rows d2 ! 1 = alice_row" "rows d2 ! 2 = legacy_row"
    by (simp_all add: d2_def)
  have "rows (migrate_columns_update d2) ! 2 =
      legacy_row\<lparr>latitude := Some 18.5, longitude := Some 73.8\<rparr>"
    using migrate_columns_update_backfill [of d2] l r(3) by (simp add: legacy_row_def del: not_None_eq)
  moreover have "rows (migrate_columns_update d2) ! 0 = bob_row"
    using migrate_columns_update_backfill [of d2] l r(1) by (simp add: bob_row_def del: not_None_eq)
  moreover have "rows (migrate_columns_update d2) ! 1 = alice_row"
    using migrate_columns_update_backfill [of d2] l r(2) by (simp add: alice_row_def del: not_None_eq)
  ultimately show ?thesis
    using migrate_columns_update_backfill [of d2] l by simp
qed

section \<open>Open records\<close>

lemma open_count_insert:
  "open_count n (insert_row mk d) = open_count n d + (if is_open n (mk (next_id d)) then 1 else 0)"
  by (simp add: open_count_def insert_row_def)

lemma open_count_checkIn:
  "open_count n (snd (checkIn ip now name rem d)) =
     open_count n d + (if strip name \<noteq> [] \<and> n = name then 1 else 0)"
  by (auto simp: checkIn_def open_count_insert is_open_def Let_def split: prod.splits)

lemma not_open_set_checkout: "\<not> is_open n (set_checkout t rem lat lon r)"
  by (simp add: is_open_def set_checkout_def)

lemma length_filter_map_le:
  assumes "\<And>x. P (f x) \<Longrightarrow> P x"
  shows "length (filter P (map f xs)) \<le> length (filter P xs)"
  using assms by (induction xs) auto

lemma open_count_update_checkout:
  "open_count n (update_checkout i t rem lat lon d) \<le> open_count n d"
proof -
  have "length (filter (is_open n)
      (map (\<lambda>r. if row_id r = i then set_checkout t rem lat lon r else r) (rows d)))
    \<le> length (filter (is_open n) (rows d))"
    by (rule length_filter_map_le) (simp add: not_open_set_checkout split: if_splits)
  then show ?thesis by (simp add: open_count_def update_checkout_def)
qed

lemma open_count_checkOut:
  "open_count n (snd (checkOut ip now name rem d)) \<le> open_count n d"
  by (auto simp: checkOut_def Let_def open_count_update_checkout split: option.splits prod.splits)

text \<open>
  C7, as the claim has it, fails: nothing in check-in looks for an open row, and two
  check-ins in a row under one name leave two open rows.
\<close>

theorem double_checkin_counterexample:
  "open_count (str ''alice'')
     (run [CheckIn ip0 t0 (str ''alice'') (str ''start''),
           CheckIn ip0 t1 (str ''alice'') (str ''again'')] empty_db) = 2"
  by (simp add: run_def open_count_checkIn strip_def isspace_def)
     (simp add: open_count_def empty_db_def)

text \<open>
  C7, amended. Started in a table with at most one open row per name (the empty table is
  one), a sequence of check-ins and check-outs in which nobody checks in while holding an
  open row ends in a table with at most one open row per name.
\<close>

theorem at_most_one_open_kept:
  assumes "\<forall>name. open_count name d \<le> 1" "no_double_checkin ops d"
  shows "\<forall>name. open_count name (run ops d) \<le> 1"
  using assms unfolding run_def
proof (induction ops arbitrary: d)
  case Nil
  then show ?case by simp
next
  case (Cons a ops)
  show ?case
  proof (cases a)
    case (CheckIn ip now name rem)
    with Cons.prems have z: "open_count name d = 0"
      and nd: "no_double_checkin ops (step a d)" by simp_all
    have "\<forall>n. open_count n (step a d) \<le> 1"
      using Cons.prems(1) z CheckIn by (auto simp: open_count_checkIn)
    from Cons.IH [OF this nd] show ?thesis by simp
  next
    case (CheckOut ip now name rem)
    with Cons.prems have nd: "no_double_checkin ops (step a d)" by simp
    have "\<forall>n. open_count n (step a d) \<le> 1"
      using Cons.prems(1) CheckOut open_count_checkOut [of _ ip now name rem d]
      by (auto intro: order_trans)
    from Cons.IH [OF this nd] show ?thesis by simp
  qed
qed

theorem at_most_one_open_kept_witness:
  "(\<forall>name. open_count name empty_db \<le> 1) \<and>
   no_double_checkin [CheckIn ip0 t0 (str ''alice'') (str ''start''),
      CheckOut ip0 t1 (str ''alice'') (str ''done''),
      CheckIn ip0 t1 (str ''alice'') (str ''back'')] empty_db \<and>
   (\<forall>name. open_count name
      (run [CheckIn ip0 t0 (str ''alice'') (str ''start''),
        CheckOut ip0 t1 (str ''alice'') (str ''done''),
        CheckIn ip0 t1 (str ''alice'') (str ''back'')] empty_db) \<le> 1)"
proof -
  have e: "\<forall>name. open_count name empty_db \<le> 1" by (simp add: open_count_def empty_db_def)
  have s1: "step (CheckIn ip0 t0 (str ''alice'') (str ''start'')) empty_db =
     \<lparr>rows = [alice_row\<lparr>row_id := 1\<rparr>], seq = 1\<rparr>"
    by (simp add: checkIn_def strip_def isspace_def get_ip_location_ip0 strftime_t0
        insert_row_def next_id_def empty_db_def alice_row_def Let_def)
  have s2: "step (CheckOut ip0 t1 (str ''alice'') (str ''done''))
       \<lparr>rows = [alice_row\<lparr>row_id := 1\<rparr>], seq = 1\<rparr> =
     \<lparr>rows = [set_checkout (str ''2024-01-01 17:00:00'') (str ''done'') (Some 12.9) (Some 77.6)
        (alice_row\<lparr>row_id := 1\<rparr>)], seq = 1\<rparr>"
    by (simp add: checkOut_def strip_def isspace_def get_ip_location_ip0 strftime_t1
        select_open_def order_by_id_desc_def is_open_def update_checkout_def alice_row_def Let_def)
  have n: "no_double_checkin [CheckIn ip0 t0 (str ''alice'') (str ''start''),
      CheckOut ip0 t1 (str ''alice'') (str ''done''),
      CheckIn ip0 t1 (str ''alice'') (str ''back'')] empty_db"
    unfolding no_double_checkin.simps s1 s2
    by (simp add: open_count_def empty_db_def not_open_set_checkout)
  from at_most_one_open_kept [OF e n] e n show ?thesis by blast
qed

section \<open>The admin search\<close>

lemma mset_order_by_id_desc: "mset (order_by_id_desc rs) = mset rs"
  by (simp add: order_by_id_desc_def)

lemma order_by_id_desc_sorted: "sorted_wrt (\<lambda>x y. row_id y \<le> row_id x) (order_by_id_desc rs)"
proof -
  have "sorted (map row_id (sort_key row_id rs))" by simp
  then have "sorted_wrt (\<lambda>x y. row_id x \<le> row_id y) (sort_key row_id rs)"
    by (simp add: sorted_wrt_map)
  then show ?thesis by (simp add: order_by_id_desc_def sorted_wrt_rev)
qed

lemma order_by_id_desc_strict:
  assumes "distinct (map row_id rs)"
  shows "sorted_wrt (\<lambda>x y. row_id y < row_id x) (order_by_id_desc rs)"
proof -
  have "distinct (map row_id (sort_key row_id rs))"
    using assms by (metis distinct_map distinct_sort set_sort mset_sort mset_map distinct_count_atmost_1 mset_eq_setD)
  moreover have "sorted (map row_id (sort_key row_id rs))" by simp
  ultimately have "sorted_wrt (<) (map row_id (sort_key row_id rs))"
    by (simp add: strict_sorted_iff)
  then have "sorted_wrt (\<lambda>x y. row_id x < row_id y) (sort_key row_id rs)"
    by (simp add: sorted_wrt_map)
  then show ?thesis by (simp add: order_by_id_desc_def sorted_wrt_rev)
qed

text \<open>
  C8. For every user filter and every pair of date strings, the search returns each row of
  the table that passes the filter, as many times as the table holds it, and nothing else:
  the rows whose name is the selected one (every row when the selection is \<open>"All"\<close>) and
  whose \<open>checkin_time\<close> is set with its first ten characters between the two dates, both
  ends included, in the order of strings. The result is in descending order of id, strictly
  so when the key is unique.
\<close>

theorem search_result:
  "mset (search selected_user start_str end_str d) =
     filter_mset
       (\<lambda>r. (selected_user = str ''All'' \<or> username r = Some selected_user) \<and>
            (\<exists>t. checkin_time r = Some t \<and> start_str \<le> take 10 t \<and> take 10 t \<le> end_str))
       (mset (rows d)) \<and>
   sorted_wrt (\<lambda>x y. row_id y \<le> row_id x) (search selected_user start_str end_str d) \<and>
   (pk_ok d \<longrightarrow>
      sorted_wrt (\<lambda>x y. row_id y < row_id x) (search selected_user start_str end_str d))"
proof -
  have p: "search_where selected_user start_str end_str =
     (\<lambda>r. (selected_user = str ''All'' \<or> username r = Some selected_user) \<and>
            (\<exists>t. checkin_time r = Some t \<and> start_str \<le> take 10 t \<and> take 10 t \<le> end_str))"
    by (rule ext) (auto simp: search_where_def split: option.splits)
  have "distinct (map row_id (filter P (rows d)))" if "pk_ok d" for P
    using that by (simp add: pk_ok_def distinct_map_filter)
  then show ?thesis
    unfolding search_def
    by (simp add: mset_order_by_id_desc order_by_id_desc_sorted order_by_id_desc_strict p
        del: of_char_Char)
qed


lemma d2_ok: "pk_ok d2"
  by (simp add: pk_ok_def d2_def bob_row_def alice_row_def legacy_row_def)

lemma search_d2:
  "search (str ''All'') (str ''2024-01-01'') (str ''2024-01-31'') d2 = [legacy_row, alice_row]"
  "search (str ''alice'') (str ''2023-01-01'') (str ''2024-01-01'') d2 = [alice_row]"
  by (simp_all add: search_def search_where_def order_by_id_desc_def d2_def bob_row_def
      alice_row_def legacy_row_def)

theorem search_result_witness:
  "pk_ok d2 \<and>
   search (str ''All'') (str ''2024-01-01'') (str ''2024-01-31'') d2 = [legacy_row, alice_row] \<and>
   search (str ''alice'') (str ''2023-01-01'') (str ''2024-01-01'') d2 = [alice_row] \<and>
   sorted_wrt (\<lambda>x y. row_id y < row_id x)
     (search (str ''All'') (str ''2024-01-01'') (str ''2024-01-31'') d2)"
  using search_result [of "str ''All''" "str ''2024-01-01''" "str ''2024-01-31''" d2]
    d2_ok search_d2
  by simp

section \<open>Adding the missing columns\<close>

lemma add_missing_Returns:
  assumes "\<forall>c\<in>set (filter (\<lambda>c. fst c \<notin> set cols) cs). nocase c \<notin> set (map nocase sch)"
    and "distinct (map nocase (filter (\<lambda>c. fst c \<notin> set cols) cs))"
  shows "add_missing cols cs (sch, stmts) =
     Returns (sch @ filter (\<lambda>c. fst c \<notin> set cols) cs, stmts @ filter (\<lambda>c. fst c \<notin> set cols) cs)"
  using assms
proof (induction cs arbitrary: sch stmts)
  case Nil
  then show ?case by simp
next
  case (Cons c cs)
  let ?m = "filter (\<lambda>c. fst c \<notin> set cols) cs"
  show ?case
  proof (cases "fst c \<in> set cols")
    case True
    with Cons show ?thesis by simp
  next
    case False
    with Cons.prems have a: "nocase c \<notin> set (map nocase sch)"
      and a': "\<forall>x\<in>set ?m. nocase x \<notin> set (map nocase sch)"
      and d0: "nocase c \<notin> set (map nocase ?m)"
      and d: "distinct (map nocase ?m)"
      by simp_all
    have b: "\<forall>x\<in>set ?m. nocase x \<notin> set (map nocase (sch @ [c]))"
    proof
      fix x assume x: "x \<in> set ?m"
      then have "nocase x \<in> set (map nocase ?m)" by (simp del: set_filter)
      with d0 have "nocase x \<noteq> nocase c" by metis
      moreover have "set (map nocase (sch @ [c])) = insert (nocase c) (set (map nocase sch))"
        by simp
      ultimately show "nocase x \<notin> set (map nocase (sch @ [c]))" using a' x by blast
    qed
    from Cons.IH [OF b d, of "stmts @ [c]"] a False show ?thesis
      by (simp add: alter_add_column_def)
  qed
qed

lemma add_missing_Raises:
  assumes "\<exists>c\<in>set (filter (\<lambda>c. fst c \<notin> set cols) cs). nocase c \<in> set (map nocase sch)"
  shows "add_missing cols cs (sch, stmts) = Raises"
  using assms
proof (induction cs arbitrary: sch stmts)
  case Nil
  then show ?case by simp
next
  case (Cons c cs)
  let ?m = "filter (\<lambda>c. fst c \<notin> set cols) cs"
  show ?case
  proof (cases "fst c \<in> set cols")
    case True
    with Cons.prems have "\<exists>x\<in>set ?m. nocase x \<in> set (map nocase sch)" by simp
    from Cons.IH [OF this, of stmts] True show ?thesis by simp
  next
    case False
    show ?thesis
    proof (cases "nocase c \<in> set (map nocase sch)")
      case True
      with False show ?thesis by (simp add: alter_add_column_def)
    next
      case nc: False
      have fm: "filter (\<lambda>c. fst c \<notin> set cols) (c # cs) = c # ?m" using False by simp
      from Cons.prems obtain x where x: "x \<in> set (c # ?m)" "nocase x \<in> set (map nocase sch)"
        unfolding fm by blast
      with nc have "x \<noteq> c" by metis
      with x(1) have xm: "x \<in> set ?m" by (simp del: set_filter)
      have "set (map nocase (sch @ [c])) = insert (nocase c) (set (map nocase sch))"
        by simp
      with x(2) have "nocase x \<in> set (map nocase (sch @ [c]))" by blast
      with xm have "\<exists>x\<in>set ?m. nocase x \<in> set (map nocase (sch @ [c]))" by blast
      from Cons.IH [OF this, of "stmts @ [c]"] False nc show ?thesis
        by (simp add: alter_add_column_def)
    qed
  qed
qed

lemma distinct_new_cols: "distinct (map nocase new_cols)"
  by (simp add: new_cols_def nocase_def lower_def)

lemma missing_after: "missing (s @ missing s) = []"
  by (auto simp: missing_def filter_empty_conv)

text \<open>The tables \<open>init_db\<close> creates and the tables the loop has completed have no such clash;
  where there is one, the \<open>ALTER TABLE\<close> is refused.\<close>

lemma no_case_clash_created: "no_case_clash (init_db None)"
  by (simp add: no_case_clash_def missing_def init_db_def created_schema_def new_cols_def)

lemma no_case_clash_after: "no_case_clash (s @ missing s)"
  by (simp add: no_case_clash_def missing_after)

lemma migrate_columns_add_clash: "\<not> no_case_clash s \<Longrightarrow> migrate_columns_add s = Raises"
  using add_missing_Raises [of "map fst s" new_cols s "[]"]
  by (simp add: migrate_columns_add_def no_case_clash_def missing_def list_all_iff)

text \<open>
  Where no column is a missing one spelt in another case, the loop does what is expected of
  it. Run on a table that has every expected column it runs no \<open>ALTER TABLE\<close> and leaves
  the columns as they are; in general it adds the expected columns the table does not have,
  each once, with its type, in the order of \<open>new_cols\<close>, and these are all the statements
  it runs; run again on the result it runs none.
\<close>

lemma migrate_columns_add_result:
  "(set (map fst new_cols) \<subseteq> set (map fst s) \<longrightarrow> migrate_columns_add s = Returns (s, [])) \<and>
   (no_case_clash s \<longrightarrow>
      migrate_columns_add s = Returns (s @ missing s, missing s) \<and>
      migrate_columns_add (s @ missing s) = Returns (s @ missing s, []))"
proof -
  have d: "distinct (map nocase (missing t))" for t
    unfolding missing_def using distinct_new_cols by (rule distinct_map_filter)
  have ok: "migrate_columns_add t = Returns (t @ missing t, missing t)" if "no_case_clash t" for t
    using add_missing_Returns [of "map fst t" new_cols t "[]"] that d [of t]
    by (simp add: migrate_columns_add_def no_case_clash_def missing_def list_all_iff)
  have e: "missing s = []" if "set (map fst new_cols) \<subseteq> set (map fst s)"
    using that by (auto simp: missing_def filter_empty_conv)
  have 1: "migrate_columns_add s = Returns (s, [])" if "set (map fst new_cols) \<subseteq> set (map fst s)"
    using ok [of s] e [OF that] by (simp add: no_case_clash_def)
  have 2: "migrate_columns_add (s @ missing s) = Returns (s @ missing s, [])"
    using ok [of "s @ missing s"] missing_after [of s] by (simp add: no_case_clash_def)
  from ok [of s] 1 2 show ?thesis by blast
qed

lemma legacy_missing:
  "missing legacy_schema =
     [(str ''checkin_remark'', str ''TEXT''), (str ''checkout_remark'', str ''TEXT''),
      (str ''checkin_latitude'', str ''REAL''), (str ''checkin_longitude'', str ''REAL''),
      (str ''checkout_latitude'', str ''REAL''), (str ''checkout_longitude'', str ''REAL'')]"
  by (simp add: missing_def legacy_schema_def new_cols_def)

lemma legacy_no_clash: "no_case_clash legacy_schema"
  unfolding no_case_clash_def legacy_missing
  by (simp add: legacy_schema_def nocase_def lower_def)

lemma created_has_all: "set (map fst new_cols) \<subseteq> set (map fst created_schema)"
  by (simp add: new_cols_def created_schema_def)

lemma migrate_columns_add_result_example:
  "migrate_columns_add created_schema = Returns (created_schema, []) \<and>
   no_case_clash legacy_schema \<and>
   migrate_columns_add legacy_schema =
     Returns (legacy_schema @
       [(str ''checkin_remark'', str ''TEXT''), (str ''checkout_remark'', str ''TEXT''),
        (str ''checkin_latitude'', str ''REAL''), (str ''checkin_longitude'', str ''REAL''),
        (str ''checkout_latitude'', str ''REAL''), (str ''checkout_longitude'', str ''REAL'')],
       [(str ''checkin_remark'', str ''TEXT''), (str ''checkout_remark'', str ''TEXT''),
        (str ''checkin_latitude'', str ''REAL''), (str ''checkin_longitude'', str ''REAL''),
        (str ''checkout_latitude'', str ''REAL''), (str ''checkout_longitude'', str ''REAL'')]) \<and>
   migrate_columns_add (legacy_schema @ missing legacy_schema) =
     Returns (legacy_schema @ missing legacy_schema, [])"
proof -
  from migrate_columns_add_result [of created_schema] created_has_all
  have "migrate_columns_add created_schema = Returns (created_schema, [])" by blast
  moreover from migrate_columns_add_result [of legacy_schema] legacy_no_clash
  have "migrate_columns_add legacy_schema = Returns (legacy_schema @ missing legacy_schema, missing legacy_schema)"
    and "migrate_columns_add (legacy_schema @ missing legacy_schema) =
     Returns (legacy_schema @ missing legacy_schema, [])" by blast+
  ultimately show ?thesis using legacy_no_clash legacy_missing by simp
qed

text \<open>
  C9 does not hold of the code. The existence test \<open>col not in cols\<close> compares names
  character by character, while SQLite compares column names without regard to case. On a
  table that has every expected column, one of them as \<open>Latitude\<close>, the test takes
  \<open>latitude\<close> for missing and the \<open>ALTER TABLE\<close> that follows is refused as a duplicate
  column: the routine raises where the claim has it run no statement.
\<close>

theorem migrate_columns_add_clash_example:
  "set (map nocase new_cols) \<subseteq> set (map nocase clash_schema) \<and>
   str ''latitude'' \<notin> set (map fst clash_schema) \<and>
   migrate_columns_add clash_schema = Raises"
  by (simp add: migrate_columns_add_def new_cols_def clash_schema_def alter_add_column_def
      nocase_def lower_def)

section \<open>Names are compared as entered\<close>

lemma rows_checkIn:
  assumes "strip name \<noteq> []"
  shows "\<exists>new. rows (step (CheckIn ip now name rem) d) = rows d @ [new] \<and>
           row_id new = next_id d \<and> username new = Some name \<and> checkout_time new = None \<and>
           checkin_time new = Some (strftime now)"
  using assms by (auto simp: checkIn_def insert_row_def Let_def split: prod.splits)

lemma select_open_append_other:
  assumes "rows e = rows d @ [new]" "\<not> is_open n new"
  shows "select_open n e = select_open n d"
  using assms by (simp add: select_open_def)

lemma select_open_append_new:
  assumes "rows e = rows d @ [new]" "is_open n new" "row_id new = next_id d"
  shows "select_open n e = Some (row_id new)"
proof -
  have "open_count n e \<noteq> 0" using assms(1,2) by (simp add: open_count_def)
  then obtain i where i: "select_open n e = Some i"
    using select_open_None [of n e] by (cases "select_open n e") auto
  from select_open_Some [OF i] obtain r where r: "r \<in> set (rows e)" "row_id r = i"
    and mx: "\<forall>x\<in>set (rows e). is_open n x \<longrightarrow> row_id x \<le> i" by blast
  from mx assms(1,2) have "row_id new \<le> i" by simp
  moreover from r assms(1,3) next_id_gt [of r d] have "i \<le> row_id new" by auto
  ultimately show ?thesis using i by simp
qed

lemma select_open_lt: "select_open n d = Some i \<Longrightarrow> i < next_id d"
  using select_open_Some [of n d i] next_id_gt by blast


lemma checkOut_other_name:
  assumes "rows e = rows d @ [new]" "row_id new = next_id d" "\<not> is_open n new"
  shows "last (rows (snd (checkOut ip now n rem e))) = new"
proof (cases "strip n = []")
  case True
  with assms(1) show ?thesis by (simp add: checkOut_def)
next
  case nb: False
  have s: "select_open n e = select_open n d"
    using select_open_append_other [OF assms(1,3)] .
  show ?thesis
  proof (cases "select_open n d")
    case None
    with s nb assms(1) show ?thesis by (simp add: checkOut_def)
  next
    case (Some i)
    from select_open_lt [OF Some] assms(2) have ne: "row_id new \<noteq> i" by simp
    obtain lat lon a where g: "get_ip_location ip = (lat, lon, a)"
      by (cases "get_ip_location ip") auto
    have "snd (checkOut ip now n rem e) = update_checkout i (strftime now) rem lat lon e"
      using Some s nb g by (simp add: checkOut_def Let_def)
    then show ?thesis using assms(1) ne by (simp add: update_checkout_def last_map)
  qed
qed

lemma checkOut_other_NotFound:
  assumes "rows e = rows d @ [new]" "\<not> is_open n new" "strip n \<noteq> []" "open_count n d = 0"
  shows "checkOut ip now n rem e = (Inl NotFound, e)"
proof -
  have "select_open n e = None"
    using select_open_append_other [OF assms(1,2)] select_open_None [of n d] assms(4) by simp
  with assms(3) show ?thesis by (simp add: checkOut_def)
qed

lemma history_other:
  assumes "rows e = rows d @ [new]" "username new \<noteq> Some n"
  shows "history n e = history n d"
  using assms by (simp add: history_def)

lemma search_other:
  assumes "rows e = rows d @ [new]" "username new \<noteq> Some n" "n \<noteq> str ''All''"
  shows "search n a b e = search n a b d"
proof -
  have "\<not> search_where n a b new" using assms(2,3) unfolding search_where_def by blast
  with assms(1) show ?thesis by (simp add: search_def)
qed


lemma insort_key_snoc:
  "f y \<le> f x \<Longrightarrow> insort_key f y (zs @ [x]) = insort_key f y zs @ [x]"
  by (induction zs) auto

lemma sort_key_snoc:
  "\<forall>y\<in>set xs. f y \<le> f x \<Longrightarrow> sort_key f (xs @ [x]) = sort_key f xs @ [x]"
  by (induction xs) (auto simp: insort_key_snoc)

lemma order_by_id_desc_snoc:
  "\<forall>r\<in>set rs. row_id r \<le> row_id new \<Longrightarrow>
     order_by_id_desc (rs @ [new]) = new # order_by_id_desc rs"
  by (simp add: order_by_id_desc_def sort_key_snoc)

lemma history_mset:
  assumes "strip n \<noteq> []"
  shows "\<exists>hs. history n e = Some hs \<and>
           mset hs = filter_mset (\<lambda>r. username r = Some n) (mset (rows e))"
  using assms by (simp add: history_def mset_order_by_id_desc)

lemma history_same:
  assumes "rows e = rows d @ [new]" "row_id new = next_id d" "username new = Some n"
    "strip n \<noteq> []"
  shows "history n e = map_option ((#) new) (history n d)"
proof -
  have "\<forall>r\<in>set (filter (\<lambda>r. username r = Some n) (rows d)). row_id r \<le> row_id new"
    using next_id_gt [of _ d] assms(2) by (simp add: less_imp_le)
  from order_by_id_desc_snoc [OF this] assms(1,3,4) show ?thesis
    by (simp add: history_def)
qed

lemma search_new:
  assumes "rows e = rows d @ [new]" "username new = Some n" "checkin_time new = Some t"
  shows "new \<in> set (search n a b e) \<longleftrightarrow> a \<le> take 10 t \<and> take 10 t \<le> b"
  using assms by (auto simp: search_def search_where_def set_order_by_id_desc)

lemma search_not_new:
  assumes "username new \<noteq> Some n" "n \<noteq> str ''All''"
  shows "new \<notin> set (search n a b e)"
proof -
  have "\<not> search_where n a b new" using assms unfolding search_where_def by blast
  then show ?thesis by (simp add: search_def set_order_by_id_desc)
qed

lemma checkOut_same_name:
  assumes "rows e = rows d @ [new]" "row_id new = next_id d" "is_open n new" "strip n \<noteq> []"
  shows "checkOut ip now n rem e =
     (Inr (CheckedOut (strftime now)),
      e\<lparr>rows := rows d @ [new\<lparr>checkout_time := Some (strftime now),
           checkout_remark := Some rem,
           checkout_latitude := fst (get_ip_location ip),
           checkout_longitude := fst (snd (get_ip_location ip))\<rparr>]\<rparr>)"
proof -
  have s: "select_open n e = Some (row_id new)"
    using select_open_append_new [OF assms(1,3,2)] .
  have "map (\<lambda>r. if row_id r = row_id new then g r else r) (rows d) = rows d" for g
  proof (rule map_idI)
    fix r assume "r \<in> set (rows d)"
    from next_id_gt [OF this] assms(2) have "row_id r \<noteq> row_id new" by simp
    then show "(if row_id r = row_id new then g r else r) = r" by simp
  qed
  then show ?thesis
    using s assms(1,4)
    by (simp add: checkOut_def update_checkout_def set_checkout_def Let_def split: prod.splits)
qed

lemma not_in_other_history:
  assumes "history n e = Some hs" "username new \<noteq> Some n"
  shows "new \<notin> set hs"
  using assms by (auto simp: history_def set_order_by_id_desc split: if_splits)

text \<open>
  C10. Check-in stores the name as entered, and check-out, history and search compare names
  for equality. So for a name that is not blank and a different name with the same
  \<open>strip\<close> (a whitespace variant, in either direction), a check-in under the first appends
  an open row carrying the first name. A check-out under the first name selects that row
  and closes it; a check-out under the second never selects or touches it and finds what
  it found before the check-in (\<open>NotFound\<close> when that name had no open row). The history
  under a name lists exactly the rows carrying that name: under the first name it is the
  new row followed by the former listing, under the second it is the former listing, without
  the new row. The search under the first name returns the new row exactly when its date
  is in the range; the search under the second name never returns it and returns what it
  returned before.
\<close>

theorem whitespace_variants_distinct:
  assumes "\<exists>c\<in>set name. \<not> isspace c" "name' \<noteq> name" "strip name' = strip name"
  shows "\<exists>new.
      rows (step (CheckIn ip now name rem) d) = rows d @ [new] \<and>
      username new = Some name \<and> checkout_time new = None \<and>
      select_open name (step (CheckIn ip now name rem) d) = Some (row_id new) \<and>
      select_open name' (step (CheckIn ip now name rem) d) = select_open name' d \<and>
      (open_count name' d = 0 \<longrightarrow>
         checkOut ip' now' name' rem' (step (CheckIn ip now name rem) d) =
           (Inl NotFound, step (CheckIn ip now name rem) d)) \<and>
      last (rows (snd (checkOut ip' now' name' rem' (step (CheckIn ip now name rem) d)))) = new \<and>
      history name' (step (CheckIn ip now name rem) d) = history name' d \<and>
      (name' \<noteq> str ''All'' \<longrightarrow>
         search name' start_str end_str (step (CheckIn ip now name rem) d) =
           search name' start_str end_str d) \<and>
      checkOut ip' now' name rem' (step (CheckIn ip now name rem) d) =
        (Inr (CheckedOut (strftime now')),
         (step (CheckIn ip now name rem) d)
           \<lparr>rows := rows d @ [new\<lparr>checkout_time := Some (strftime now'),
              checkout_remark := Some rem',
              checkout_latitude := fst (get_ip_location ip'),
              checkout_longitude := fst (snd (get_ip_location ip'))\<rparr>]\<rparr>) \<and>
      history name (step (CheckIn ip now name rem) d) = map_option ((#) new) (history name d) \<and>
      (\<exists>hs. history name (step (CheckIn ip now name rem) d) = Some hs \<and> new \<in> set hs \<and>
         mset hs = filter_mset (\<lambda>r. username r = Some name)
           (mset (rows (step (CheckIn ip now name rem) d)))) \<and>
      (\<exists>hs. history name' (step (CheckIn ip now name rem) d) = Some hs \<and> new \<notin> set hs \<and>
         mset hs = filter_mset (\<lambda>r. username r = Some name')
           (mset (rows (step (CheckIn ip now name rem) d)))) \<and>
      (new \<in> set (search name start_str end_str (step (CheckIn ip now name rem) d)) \<longleftrightarrow>
         start_str \<le> take 10 (strftime now) \<and> take 10 (strftime now) \<le> end_str) \<and>
      (name' \<noteq> str ''All'' \<longrightarrow>
         new \<notin> set (search name' start_str end_str (step (CheckIn ip now name rem) d)))"
proof -
  define e where "e = step (CheckIn ip now name rem) d"
  from assms(1) have nb: "strip name \<noteq> []" by (simp add: strip_Nil_iff)
  with assms(3) have nb': "strip name' \<noteq> []" by simp
  from rows_checkIn [OF nb, of ip now rem d] obtain new where
    r: "rows e = rows d @ [new]" and i: "row_id new = next_id d"
    and u: "username new = Some name" and t: "checkout_time new = None"
    and ct: "checkin_time new = Some (strftime now)"
    unfolding e_def by blast
  have o: "is_open name new" using u t by (simp add: is_open_def)
  have o': "\<not> is_open name' new" using u assms(2) by (simp add: is_open_def)
  have u': "username new \<noteq> Some name'" using u assms(2) by simp
  have s1: "select_open name e = Some (row_id new)"
    using select_open_append_new [OF r o i] .
  have s2: "select_open name' e = select_open name' d"
    using select_open_append_other [OF r o'] .
  have c: "open_count name' d = 0 \<longrightarrow> checkOut ip' now' name' rem' e = (Inl NotFound, e)"
    using checkOut_other_NotFound [OF r o' nb'] by blast
  have l: "last (rows (snd (checkOut ip' now' name' rem' e))) = new"
    using checkOut_other_name [OF r i o'] .
  have h: "history name' e = history name' d"
    using history_other [OF r u'] .
  have q: "name' \<noteq> str ''All'' \<longrightarrow> search name' start_str end_str e = search name' start_str end_str d"
    using search_other [OF r u'] by blast
  have co: "checkOut ip' now' name rem' e =
        (Inr (CheckedOut (strftime now')),
         e\<lparr>rows := rows d @ [new\<lparr>checkout_time := Some (strftime now'),
              checkout_remark := Some rem',
              checkout_latitude := fst (get_ip_location ip'),
              checkout_longitude := fst (snd (get_ip_location ip'))\<rparr>]\<rparr>)"
    using checkOut_same_name [OF r i o nb] .
  have hn: "history name e = map_option ((#) new) (history name d)"
    using history_same [OF r i u nb] .
  from history_mset [OF nb, of e] obtain hs where
    hs: "history name e = Some hs"
      "mset hs = filter_mset (\<lambda>r. username r = Some name) (mset (rows e))" by blast
  have "new \<in># mset hs" unfolding hs(2) using r u by simp
  then have "new \<in> set hs" by simp
  with hs have hm: "\<exists>hs. history name e = Some hs \<and> new \<in> set hs \<and>
      mset hs = filter_mset (\<lambda>r. username r = Some name) (mset (rows e))" by blast
  from history_mset [OF nb', of e] obtain hs' where
    hs': "history name' e = Some hs'"
      "mset hs' = filter_mset (\<lambda>r. username r = Some name') (mset (rows e))" by blast
  from not_in_other_history [OF hs'(1) u'] hs'
  have hm': "\<exists>hs. history name' e = Some hs \<and> new \<notin> set hs \<and>
      mset hs = filter_mset (\<lambda>r. username r = Some name') (mset (rows e))" by blast
  have sn: "new \<in> set (search name start_str end_str e) \<longleftrightarrow>
      start_str \<le> take 10 (strftime now) \<and> take 10 (strftime now) \<le> end_str"
    using search_new [OF r u ct] .
  have sn': "name' \<noteq> str ''All'' \<longrightarrow> new \<notin> set (search name' start_str end_str e)"
    using search_not_new [OF u'] by blast
  show ?thesis
    unfolding e_def [symmetric]
  proof (intro exI [of _ new] conjI)
    show "rows e = rows d @ [new]" by (rule r)
    show "username new = Some name" by (rule u)
    show "checkout_time new = None" by (rule t)
    show "select_open name e = Some (row_id new)" by (rule s1)
    show "select_open name' e = select_open name' d" by (rule s2)
    show "open_count name' d = 0 \<longrightarrow> checkOut ip' now' name' rem' e = (Inl NotFound, e)"
      by (rule c)
    show "last (rows (snd (checkOut ip' now' name' rem' e))) = new" by (rule l)
    show "history name' e = history name' d" by (rule h)
    show "name' \<noteq> str ''All'' \<longrightarrow>
        search name' start_str end_str e = search name' start_str end_str d"
      by (rule q)
    show "checkOut ip' now' name rem' e =
        (Inr (CheckedOut (strftime now')),
         e\<lparr>rows := rows d @ [new\<lparr>checkout_time := Some (strftime now'),
              checkout_remark := Some rem',
              checkout_latitude := fst (get_ip_location ip'),
              checkout_longitude := fst (snd (get_ip_location ip'))\<rparr>]\<rparr>)"
      by (rule co)
    show "history name e = map_option ((#) new) (history name d)" by (rule hn)
    show "\<exists>hs. history name e = Some hs \<and> new \<in> set hs \<and>
        mset hs = filter_mset (\<lambda>r. username r = Some name) (mset (rows e))"
      by (rule hm)
    show "\<exists>hs. history name' e = Some hs \<and> new \<notin> set hs \<and>
        mset hs = filter_mset (\<lambda>r. username r = Some name') (mset (rows e))"
      by (rule hm')
    show "new \<in> set (search name start_str end_str e) \<longleftrightarrow>
        start_str \<le> take 10 (strftime now) \<and> take 10 (strftime now) \<le> end_str"
      by (rule sn)
    show "name' \<noteq> str ''All'' \<longrightarrow> new \<notin> set (search name' start_str end_str e)"
      by (rule sn')
  qed
qed


theorem whitespace_variants_distinct_witness:
  "(\<exists>c\<in>set (str ''alice ''). \<not> isspace c) \<and> str ''alice'' \<noteq> str ''alice '' \<and>
   strip (str ''alice'') = strip (str ''alice '') \<and>
   select_open (str ''alice'') (step (CheckIn ip0 t0 (str ''alice '') (str ''start'')) empty_db) = None \<and>
   checkOut ip0 t1 (str ''alice'') (str ''done'')
     (step (CheckIn ip0 t0 (str ''alice '') (str ''start'')) empty_db) =
     (Inl NotFound, step (CheckIn ip0 t0 (str ''alice '') (str ''start'')) empty_db) \<and>
   history (str ''alice'') (step (CheckIn ip0 t0 (str ''alice '') (str ''start'')) empty_db) = Some [] \<and>
   (\<exists>r. history (str ''alice '') (step (CheckIn ip0 t0 (str ''alice '') (str ''start'')) empty_db) =
      Some [r])"
proof -
  let ?e = "step (CheckIn ip0 t0 (str ''alice '') (str ''start'')) empty_db"
  have h1: "\<exists>c\<in>set (str ''alice ''). \<not> isspace c" by (simp add: isspace_def)
  have h2: "str ''alice'' \<noteq> str ''alice ''" by simp
  have h3: "strip (str ''alice'') = strip (str ''alice '')" by (simp add: strip_def isspace_def)
  have z: "open_count (str ''alice'') empty_db = 0" by (simp add: open_count_def empty_db_def)
  have n: "select_open (str ''alice'') empty_db = None"
    by (simp add: select_open_def empty_db_def order_by_id_desc_def)
  have ha: "history (str ''alice'') empty_db = Some []"
    by (simp add: history_def strip_def isspace_def empty_db_def order_by_id_desc_def)
  have hb: "history (str ''alice '') empty_db = Some []"
    by (simp add: history_def strip_def isspace_def empty_db_def order_by_id_desc_def)
  from whitespace_variants_distinct [OF h1 h2 h3, of ip0 t0 "str ''start''" empty_db ip0 t1 "str ''done''"]
  obtain new where
    a: "select_open (str ''alice'') ?e = select_open (str ''alice'') empty_db"
    and b: "open_count (str ''alice'') empty_db = 0 \<longrightarrow>
       checkOut ip0 t1 (str ''alice'') (str ''done'') ?e = (Inl NotFound, ?e)"
    and c: "history (str ''alice'') ?e = history (str ''alice'') empty_db"
    and d: "history (str ''alice '') ?e = map_option ((#) new) (history (str ''alice '') empty_db)"
    by blast
  from a n have 1: "select_open (str ''alice'') ?e = None" by (rule trans)
  from b z have 2: "checkOut ip0 t1 (str ''alice'') (str ''done'') ?e = (Inl NotFound, ?e)"
    by (rule mp)
  from c ha have 3: "history (str ''alice'') ?e = Some []" by (rule trans)
  from d have "history (str ''alice '') ?e = Some [new]" unfolding hb by simp
  then have 4: "\<exists>r. history (str ''alice '') ?e = Some [r]" by (rule exI)
  from h1 h2 h3 1 2 3 4 show ?thesis by (intro conjI)
qed

end
